theory Spec2Isabelle
  imports Main
begin

section \<open>The bearer-token filter of lib/authorise.js\<close>

text \<open>
  A shallow embedding of the three functions of \<^verbatim>\<open>lib/authorise.js\<close>:
  \<^verbatim>\<open>getBearerToken\<close>, \<^verbatim>\<open>validateAccessToken\<close> and \<^verbatim>\<open>handle\<close>.
  The callbacks of the source (\<^verbatim>\<open>next\<close>) are each invoked exactly once on every
  path, so a function that takes a callback is modelled by the value it passes to it.
\<close>

subsection \<open>Data\<close>

text \<open>
  JavaScript values. A string is a list of characters; an \<^verbatim>\<open>undefined\<close> value is
  \<^term>\<open>None\<close>. The three carriers are read as \<^verbatim>\<open>string | undefined\<close>, the type the
  request accessors have. Characters are 8-bit (the Latin-1 range of the code units).
\<close>

type_synonym jsval = "string option"

text \<open>
  Modelled from the spec: the class \<^verbatim>\<open>OAuth2Error\<close> of \<^verbatim>\<open>./error\<close>, which the
  source requires and which is not among the source files. The object built by
  \<^verbatim>\<open>new OAuth2Error(error, description, err)\<close> is the value of its three arguments:
  the kind, the description (\<^term>\<open>None\<close> when the source passes \<^verbatim>\<open>false\<close>, the
  description that is not shown) and the wrapped cause (\<^term>\<open>None\<close> when the argument
  is left out).
\<close>

datatype 'e OAuth2Error =
  OAuth2Error (error: string) (description: "string option") (cause: "'e option")

text \<open>
  The object \<^verbatim>\<open>{ id: token.user_id }\<close> stored in \<^verbatim>\<open>req.user\<close>.
\<close>

datatype 'u user_obj = User_obj (id_of: 'u)

text \<open>
  The request. \<^verbatim>\<open>req.get('Authorization')\<close>, \<^verbatim>\<open>req.query.access_token\<close>,
  \<^verbatim>\<open>req.body.access_token\<close>, \<^verbatim>\<open>req.method\<close> (the field \<open>req_method\<close>) and
  \<^verbatim>\<open>req.user\<close> are the fields the source touches; every other field of the request
  is in the extension \<open>more\<close> of the record.
\<close>

record 'u request =
  authorization :: jsval
  query_access_token :: jsval
  body_access_token :: jsval
  req_method :: string
  user :: "'u user_obj option"

text \<open>
  A token record of the store. \<^verbatim>\<open>expires\<close> is a date, as \<^verbatim>\<open>this.now\<close> is: an
  object (truthy), compared by its time value, an integer number of milliseconds.
  \<^term>\<open>None\<close> is a record without \<^verbatim>\<open>expires\<close> (\<^verbatim>\<open>undefined\<close> or \<^verbatim>\<open>null\<close>).
\<close>

record 'u token =
  expires :: "int option"
  user_id :: 'u

text \<open>
  The object \<^verbatim>\<open>this\<close> of \<^verbatim>\<open>handle\<close> and \<^verbatim>\<open>validateAccessToken\<close>: the model
  with its lookup \<^verbatim>\<open>getAccessToken\<close>, and \<^verbatim>\<open>now\<close>. The lookup passes its callback
  either a truthy error (\<^term>\<open>Inl\<close>) or a token (\<^term>\<open>Inr\<close>), where \<^term>\<open>None\<close> is
  a falsy token: no record. The bearer token it is given can be \<^verbatim>\<open>undefined\<close>.
\<close>

record ('e, 'u) oauth =
  getAccessToken :: "jsval \<Rightarrow> 'e + 'u token option"
  now :: int

text \<open>
  What \<^verbatim>\<open>handle\<close> and \<^verbatim>\<open>validateAccessToken\<close> pass to \<^verbatim>\<open>next\<close>: nothing
  (\<^verbatim>\<open>next()\<close>) or an error (\<^verbatim>\<open>next(err)\<close>).
\<close>

datatype 'e signal = Next | Next_err "'e OAuth2Error"

subsection \<open>JavaScript operators\<close>

text \<open>Truthiness of a \<^verbatim>\<open>string | undefined\<close>: defined and not the empty string.\<close>

definition truthy :: "jsval \<Rightarrow> bool" where
  "truthy v = (case v of None \<Rightarrow> False | Some s \<Rightarrow> s \<noteq> [])"

text \<open>\<^verbatim>\<open>a || b\<close>: the left operand when it is truthy, the right one otherwise.\<close>

definition js_or :: "jsval \<Rightarrow> jsval \<Rightarrow> jsval" where
  "js_or a b = (if truthy a then a else b)"

text \<open>\<^verbatim>\<open>typeof v !== 'undefined'\<close>, as the number it is when added.\<close>

definition defined_num :: "jsval \<Rightarrow> nat" where
  "defined_num v = (case v of None \<Rightarrow> 0 | Some _ \<Rightarrow> 1)"

subsection \<open>The regular expression\<close>

text \<open>
  The class \<^verbatim>\<open>\s\<close> on 8-bit characters: tab, line feed, vertical tab, form feed,
  carriage return, space and the no-break space.
\<close>

definition is_space :: "char \<Rightarrow> bool" where
  "is_space c = (c \<in> set [CHR 0x09, CHR 0x0A, CHR 0x0B, CHR 0x0C, CHR 0x0D, CHR 0x20, CHR 0xA0])"

text \<open>A literal at the head of the subject: the rest of the subject after it.\<close>

fun literal :: "string \<Rightarrow> string \<Rightarrow> string option" where
  "literal [] s = Some s"
| "literal (p # ps) [] = None"
| "literal (p # ps) (c # cs) = (if p = c then literal ps cs else None)"

text \<open>
  \<^verbatim>\<open>/Bearer\s(\S+)/\<close> tried at the head of the subject: the literal, one character of
  \<^verbatim>\<open>\s\<close>, then the group, the longest run of characters of \<^verbatim>\<open>\S\<close>, which is not
  empty. Nothing follows the group in the expression, so the longest run is the match.
\<close>

definition match_here :: "string \<Rightarrow> string option" where
  "match_here s =
     (case literal ''Bearer'' s of
        None \<Rightarrow> None
      | Some [] \<Rightarrow> None
      | Some (c # rest) \<Rightarrow>
          if is_space c
          then (let g = takeWhile (\<lambda>x. \<not> is_space x) rest
                in if g = [] then None else Some g)
          else None)"

text \<open>
  \<^verbatim>\<open>headerToken.match(/Bearer\s(\S+)/)\<close>: the expression has no anchor, so it is tried
  at every position from the left and the first position that matches wins. The result
  is \<^verbatim>\<open>matches[1]\<close>, the group, or \<^term>\<open>None\<close> when \<^verbatim>\<open>matches\<close> is \<^verbatim>\<open>null\<close>.
\<close>

fun bearer_match :: "string \<Rightarrow> string option" where
  "bearer_match [] = None"
| "bearer_match (c # cs) =
     (case match_here (c # cs) of Some g \<Rightarrow> Some g | None \<Rightarrow> bearer_match cs)"

subsection \<open>getBearerToken\<close>

definition methodsUsed :: "('u, 'm) request_scheme \<Rightarrow> nat" where
  "methodsUsed req =
     defined_num (authorization req) + defined_num (query_access_token req)
       + defined_num (body_access_token req)"

text \<open>
  The result is what the source passes to its callback: \<^verbatim>\<open>next(err)\<close> is \<^term>\<open>Inl\<close>,
  \<^verbatim>\<open>next(null, token)\<close> is \<^term>\<open>Inr\<close>. The branch \<^verbatim>\<open>if (headerToken)\<close> is the
  inner case: it is skipped for an undefined or empty header, returns on a header that
  does not match, and otherwise replaces \<^verbatim>\<open>headerToken\<close> by the group.
  \<^verbatim>\<open>headerToken || postToken || getToken\<close> associates to the left.
\<close>

definition getBearerToken :: "('u, 'm) request_scheme \<Rightarrow> 'e OAuth2Error + jsval" where
  "getBearerToken req =
     (let headerToken = authorization req;
          getToken = query_access_token req;
          postToken = body_access_token req
      in
        if methodsUsed req > 1 then
          Inl (OAuth2Error ''invalid_request''
            (Some ''Only one method may be used to authenticate at a time (Auth header, GET or POST).'')
            None)
        else if methodsUsed req = 0 then
          Inl (OAuth2Error ''invalid_request'' (Some ''The access token was not found'') None)
        else
          (case (case headerToken of
                   None \<Rightarrow> Inr headerToken
                 | Some h \<Rightarrow>
                     if h = [] then Inr headerToken
                     else (case bearer_match h of
                             None \<Rightarrow>
                               Inl (OAuth2Error ''invalid_request'' (Some ''Malformed auth header'')
                                 None)
                           | Some g \<Rightarrow> Inr (Some g))) of
             Inl err \<Rightarrow> Inl err
           | Inr headerToken \<Rightarrow>
               if truthy postToken \<and> req_method req \<noteq> ''POST'' then
                 Inl (OAuth2Error ''invalid_request''
                   (Some ''When putting the token in the body, the method must be POST.'') None)
               else Inr (js_or (js_or headerToken postToken) getToken)))"

subsection \<open>validateAccessToken\<close>

text \<open>
  The result is the signal passed to \<^verbatim>\<open>next\<close> and the request as the function
  leaves it.
\<close>

definition validateAccessToken ::
  "('e, 'u) oauth \<Rightarrow> 'u token option \<Rightarrow> ('u, 'm) request_scheme
     \<Rightarrow> 'e signal \<times> ('u, 'm) request_scheme" where
  "validateAccessToken this tok req =
     (case tok of
        None \<Rightarrow>
          (Next_err (OAuth2Error ''invalid_grant'' (Some ''The access token provided is invalid.'')
             None), req)
      | Some t \<Rightarrow>
          (case expires t of
             None \<Rightarrow>
               (Next_err (OAuth2Error ''invalid_grant''
                  (Some ''The access token provided has expired.'') None), req)
           | Some e \<Rightarrow>
               if e < now this then
                 (Next_err (OAuth2Error ''invalid_grant''
                    (Some ''The access token provided has expired.'') None), req)
               else (Next, req\<lparr>user := Some (User_obj (user_id t))\<rparr>)))"

subsection \<open>handle\<close>

text \<open>
  The result is the signal passed to \<^verbatim>\<open>next\<close>, the request as the filter leaves it,
  and the arguments of the calls of \<^verbatim>\<open>this.model.getAccessToken\<close>, in order.
\<close>

definition handle ::
  "('e, 'u) oauth \<Rightarrow> ('u, 'm) request_scheme
     \<Rightarrow> 'e signal \<times> ('u, 'm) request_scheme \<times> jsval list" where
  "handle this req =
     (case getBearerToken req of
        Inl err \<Rightarrow> (Next_err err, req, [])
      | Inr bearerToken \<Rightarrow>
          (case getAccessToken this bearerToken of
             Inl err \<Rightarrow> (Next_err (OAuth2Error ''server_error'' None (Some err)), req, [bearerToken])
           | Inr tok \<Rightarrow>
               (let (sig, req') = validateAccessToken this tok req
                in (sig, req', [bearerToken]))))"

subsection \<open>Properties of the expression, stated on the subject\<close>

text \<open>
  \<open>bearer_at pre g post h\<close>: the expression matches the header \<open>h\<close> right after
  \<open>pre\<close> with group \<open>g\<close>. The header is \<open>pre\<close>, the literal, one character of
  \<^verbatim>\<open>\s\<close>, the group \<open>g\<close> (not empty, no character of \<^verbatim>\<open>\s\<close> in it) and
  \<open>post\<close>, which is empty or starts with a character of \<^verbatim>\<open>\s\<close>, so that the group
  is the longest run. \<open>first_at pre h\<close>: the expression matches at no position of \<open>h\<close>
  to the left of the end of \<open>pre\<close>.
\<close>

definition bearer_at :: "string \<Rightarrow> string \<Rightarrow> string \<Rightarrow> string \<Rightarrow> bool" where
  "bearer_at pre g post h =
     (\<exists>c. h = pre @ ''Bearer'' @ c # g @ post \<and> is_space c \<and> g \<noteq> [] \<and>
          (\<forall>x \<in> set g. \<not> is_space x) \<and>
          (case post of [] \<Rightarrow> True | d # _ \<Rightarrow> is_space d))"

definition first_at :: "string \<Rightarrow> string \<Rightarrow> bool" where
  "first_at pre h = (\<forall>p g q. length p < length pre \<longrightarrow> \<not> bearer_at p g q h)"

text \<open>
  The number of carriers whose value is defined, whatever the value is: the Authorization
  header, the query parameter and the body parameter.
\<close>

definition carriers_defined :: "('u, 'm) request_scheme \<Rightarrow> nat" where
  "carriers_defined req =
     length (filter (\<lambda>v. v \<noteq> None)
       [authorization req, query_access_token req, body_access_token req])"

subsection \<open>Examples\<close>

text \<open>
  A request with the three carriers and the method given, no identity attached and no
  other field; and a filter whose store knows five tokens, at time 1000.
\<close>

definition request_of :: "jsval \<Rightarrow> jsval \<Rightarrow> jsval \<Rightarrow> string \<Rightarrow> string request" where
  "request_of h q b m =
     \<lparr>authorization = h, query_access_token = q, body_access_token = b, req_method = m,
      user = None\<rparr>"

definition example_oauth :: "(string, string) oauth" where
  "example_oauth =
     \<lparr>getAccessToken = (\<lambda>b.
        if b = Some ''abc123'' then Inr (Some \<lparr>expires = Some 4600, user_id = ''u1''\<rparr>)
        else if b = Some ''edge'' then Inr (Some \<lparr>expires = Some 1000, user_id = ''u2''\<rparr>)
        else if b = Some ''old'' then Inr (Some \<lparr>expires = Some 999, user_id = ''u3''\<rparr>)
        else if b = Some ''never'' then Inr (Some \<lparr>expires = None, user_id = ''u4''\<rparr>)
        else if b = Some ''down'' then Inl ''store unavailable''
        else Inr None),
      now = 1000\<rparr>"

section \<open>Lemmas\<close>

lemmas eval_defs =
  request_of_def example_oauth_def getBearerToken_def methodsUsed_def defined_num_def
  truthy_def js_or_def match_here_def is_space_def handle_def validateAccessToken_def

subsection \<open>The expression\<close>

lemma literal_iff: "literal p s = Some r \<longleftrightarrow> s = p @ r"
  by (induction p s rule: literal.induct) auto

lemma run_iff:
  "(takeWhile (\<lambda>x. \<not> is_space x) rest = g \<and> g \<noteq> []) \<longleftrightarrow>
   (\<exists>post. rest = g @ post \<and> g \<noteq> [] \<and> (\<forall>x \<in> set g. \<not> is_space x) \<and>
           (case post of [] \<Rightarrow> True | d # _ \<Rightarrow> is_space d))"
  (is "?L \<longleftrightarrow> ?R")
proof
  let ?P = "\<lambda>x. \<not> is_space x"
  assume a: ?L
  have "rest = g @ dropWhile ?P rest" using a by (metis takeWhile_dropWhile_id)
  moreover have "\<forall>x \<in> set g. \<not> is_space x" using a by (auto dest: set_takeWhileD)
  moreover have "case dropWhile ?P rest of [] \<Rightarrow> True | d # _ \<Rightarrow> is_space d"
  proof (cases "dropWhile ?P rest")
    case Nil
    then show ?thesis by (simp del: dropWhile_eq_Nil_conv)
  next
    case (Cons d ds)
    then have "is_space d" using hd_dropWhile[of ?P rest] by simp
    then show ?thesis using Cons by simp
  qed
  ultimately show ?R using a by blast
next
  assume ?R
  then obtain post where p: "rest = g @ post" "g \<noteq> []" "\<forall>x \<in> set g. \<not> is_space x"
    "case post of [] \<Rightarrow> True | d # _ \<Rightarrow> is_space d" by blast
  have "takeWhile (\<lambda>x. \<not> is_space x) post = []" using p(4) by (cases post) auto
  then show ?L using p by (simp add: takeWhile_append2)
qed

lemma match_here_iff: "match_here s = Some g \<longleftrightarrow> (\<exists>post. bearer_at [] g post s)"
proof -
  have "match_here s = Some g \<longleftrightarrow>
     (\<exists>c rest. s = ''Bearer'' @ c # rest \<and> is_space c \<and>
        takeWhile (\<lambda>x. \<not> is_space x) rest = g \<and> g \<noteq> [])"
    unfolding match_here_def
    by (auto simp: literal_iff Let_def split: option.splits list.splits)
  also have "\<dots> \<longleftrightarrow>
     (\<exists>c rest. s = ''Bearer'' @ c # rest \<and> is_space c \<and>
        (\<exists>post. rest = g @ post \<and> g \<noteq> [] \<and> (\<forall>x \<in> set g. \<not> is_space x) \<and>
           (case post of [] \<Rightarrow> True | d # _ \<Rightarrow> is_space d)))"
    unfolding run_iff by simp
  also have "\<dots> \<longleftrightarrow> (\<exists>post. bearer_at [] g post s)"
    unfolding bearer_at_def by auto
  finally show ?thesis .
qed

lemma match_here_None_iff: "match_here s = None \<longleftrightarrow> \<not> (\<exists>g post. bearer_at [] g post s)"
  using match_here_iff[of s] by (metis not_Some_eq)

lemma bearer_at_Cons:
  "bearer_at (x # pre) g post (y # h) \<longleftrightarrow> x = y \<and> bearer_at pre g post h"
  unfolding bearer_at_def by auto

lemma bearer_at_Nil_subject: "\<not> bearer_at pre g post []"
  unfolding bearer_at_def by auto

lemma bearer_match_Some_iff:
  "bearer_match h = Some g \<longleftrightarrow> (\<exists>pre post. bearer_at pre g post h \<and> first_at pre h)"
proof (induction h)
  case Nil
  show ?case by (simp add: bearer_at_Nil_subject)
next
  case (Cons c cs)
  show ?case
  proof (cases "match_here (c # cs)")
    case (Some g')
    then obtain post' where m: "bearer_at [] g' post' (c # cs)"
      using match_here_iff by blast
    have "(\<exists>pre post. bearer_at pre g post (c # cs) \<and> first_at pre (c # cs)) \<longleftrightarrow> g = g'"
    proof
      assume "\<exists>pre post. bearer_at pre g post (c # cs) \<and> first_at pre (c # cs)"
      then obtain pre post where b: "bearer_at pre g post (c # cs)" "first_at pre (c # cs)" by blast
      have "pre = []" using b(2) m unfolding first_at_def by (cases pre) auto
      then have "match_here (c # cs) = Some g" using b(1) match_here_iff by blast
      then show "g = g'" using Some by simp
    next
      assume "g = g'"
      then have "bearer_at [] g post' (c # cs) \<and> first_at [] (c # cs)"
        using m by (simp add: first_at_def)
      then show "\<exists>pre post. bearer_at pre g post (c # cs) \<and> first_at pre (c # cs)" by blast
    qed
    then show ?thesis using Some by auto
  next
    case None
    then have no: "\<And>g post. \<not> bearer_at [] g post (c # cs)"
      using match_here_None_iff by blast
    have "(\<exists>pre post. bearer_at pre g post (c # cs) \<and> first_at pre (c # cs))
          \<longleftrightarrow> (\<exists>pre post. bearer_at pre g post cs \<and> first_at pre cs)"
    proof
      assume "\<exists>pre post. bearer_at pre g post (c # cs) \<and> first_at pre (c # cs)"
      then obtain pre post where b: "bearer_at pre g post (c # cs)" "first_at pre (c # cs)" by blast
      then obtain pre' where pre: "pre = c # pre'" using no
        by (cases pre) (auto simp: bearer_at_Cons)
      have "bearer_at pre' g post cs" using b(1) pre by (simp add: bearer_at_Cons)
      moreover have "first_at pre' cs"
        unfolding first_at_def
      proof (intro allI impI)
        fix p :: string and g2 q assume "length p < length pre'"
        then have "\<not> bearer_at (c # p) g2 q (c # cs)" using b(2) pre
          unfolding first_at_def by simp
        then show "\<not> bearer_at p g2 q cs" by (simp add: bearer_at_Cons)
      qed
      ultimately show "\<exists>pre post. bearer_at pre g post cs \<and> first_at pre cs" by blast
    next
      assume "\<exists>pre post. bearer_at pre g post cs \<and> first_at pre cs"
      then obtain pre post where b: "bearer_at pre g post cs" "first_at pre cs" by blast
      have "bearer_at (c # pre) g post (c # cs)" using b(1) by (simp add: bearer_at_Cons)
      moreover have "first_at (c # pre) (c # cs)"
        unfolding first_at_def
      proof (intro allI impI)
        fix p :: string and g2 q assume l: "length p < length (c # pre)"
        show "\<not> bearer_at p g2 q (c # cs)"
        proof (cases p)
          case Nil
          then show ?thesis using no by simp
        next
          case (Cons x xs)
          then show ?thesis using l b(2) unfolding first_at_def
            by (auto simp: bearer_at_Cons)
        qed
      qed
      ultimately show "\<exists>pre post. bearer_at pre g post (c # cs) \<and> first_at pre (c # cs)" by blast
    qed
    then show ?thesis using None Cons.IH by simp
  qed
qed


lemma bearer_match_None_iff:
  "bearer_match h = None \<longleftrightarrow> \<not> (\<exists>pre g post. bearer_at pre g post h)"
proof (induction h)
  case Nil
  show ?case by (simp add: bearer_at_Nil_subject)
next
  case (Cons c cs)
  show ?case
  proof (cases "match_here (c # cs)")
    case (Some g')
    then have "\<exists>post. bearer_at [] g' post (c # cs)" using match_here_iff by blast
    then show ?thesis using Some by auto
  next
    case None
    then have no: "\<And>g post. \<not> bearer_at [] g post (c # cs)"
      using match_here_None_iff by blast
    have "(\<exists>pre g post. bearer_at pre g post (c # cs)) \<longleftrightarrow> (\<exists>pre g post. bearer_at pre g post cs)"
    proof
      assume "\<exists>pre g post. bearer_at pre g post (c # cs)"
      then obtain pre g post where b: "bearer_at pre g post (c # cs)" by blast
      then obtain pre' where "pre = c # pre'" using no by (cases pre) (auto simp: bearer_at_Cons)
      then show "\<exists>pre g post. bearer_at pre g post cs" using b by (auto simp: bearer_at_Cons)
    next
      assume "\<exists>pre g post. bearer_at pre g post cs"
      then obtain pre g post where "bearer_at pre g post cs" by blast
      then have "bearer_at (c # pre) g post (c # cs)" by (simp add: bearer_at_Cons)
      then show "\<exists>pre g post. bearer_at pre g post (c # cs)" by blast
    qed
    then show ?thesis using None Cons.IH by simp
  qed
qed

lemma getBearerToken_header_only:
  assumes "authorization req = Some h" and "h \<noteq> []"
    and "query_access_token req = None" and "body_access_token req = None"
  shows "(getBearerToken req :: 'e OAuth2Error + jsval) =
           (case bearer_match h of
              None \<Rightarrow> Inl (OAuth2Error ''invalid_request'' (Some ''Malformed auth header'') None)
            | Some g \<Rightarrow> Inr (Some g))"
proof (cases "bearer_match h")
  case None
  then show ?thesis using assms
    by (simp add: getBearerToken_def methodsUsed_def defined_num_def)
next
  case (Some g)
  then have "g \<noteq> []" using bearer_match_Some_iff[of h g] by (auto simp: bearer_at_def)
  then show ?thesis using assms Some
    by (simp add: getBearerToken_def methodsUsed_def defined_num_def truthy_def js_or_def)
qed

subsection \<open>The filter\<close>

lemma handle_Inl:
  "(getBearerToken req :: 'e OAuth2Error + jsval) = Inl err \<Longrightarrow>
   handle (this :: ('e, 'u) oauth) req = (Next_err err, req, [])"
  by (simp add: handle_def)

lemma handle_Inr:
  "(getBearerToken req :: 'e OAuth2Error + jsval) = Inr b \<Longrightarrow>
   handle (this :: ('e, 'u) oauth) req =
     (case getAccessToken this b of
        Inl err \<Rightarrow> (Next_err (OAuth2Error ''server_error'' None (Some err)), req, [b])
      | Inr tok \<Rightarrow> (fst (validateAccessToken this tok req),
                    snd (validateAccessToken this tok req), [b]))"
  by (simp add: handle_def split: sum.splits prod.splits)

lemma methodsUsed_carriers: "methodsUsed req = carriers_defined req"
  by (simp add: methodsUsed_def carriers_defined_def defined_num_def split: option.splits)

lemma methodsUsed_user: "methodsUsed (req\<lparr>user := u\<rparr>) = methodsUsed req"
  by (simp add: methodsUsed_def)

lemma getBearerToken_user: "getBearerToken (req\<lparr>user := u\<rparr>) = getBearerToken req"
  by (simp add: getBearerToken_def methodsUsed_user Let_def cong: sum.case_cong)

lemma handle_user:
  "handle this (req\<lparr>user := u\<rparr>) =
     (case handle this req of
        (Next, req', calls) \<Rightarrow> (Next, req', calls)
      | (Next_err err, req', calls) \<Rightarrow> (Next_err err, req'\<lparr>user := u\<rparr>, calls))"
  by (simp add: handle_def getBearerToken_user validateAccessToken_def
      split: sum.splits option.splits)

lemma handle_result:
  "(\<exists>err calls. handle this req = (Next_err err, req, calls)) \<or>
   (\<exists>v calls. handle this req = (Next, req\<lparr>user := v\<rparr>, calls))"
  by (auto simp: handle_def validateAccessToken_def split: sum.splits option.splits)

section \<open>The claims\<close>

text \<open>
  C1 (as amended). For every token record the store returns, validation fails with the
  error of kind \<^verbatim>\<open>invalid_grant\<close> and message "The access token provided has expired."
  exactly when the record has no expiry or its expiry is strictly earlier than the
  current time; the request is left as it was. A record with no expiry is never treated
  as non-expiring. A record whose expiry equals the current time is not rejected.
\<close>

theorem expired_iff:
  "validateAccessToken this (Some t) req =
     (Next_err (OAuth2Error ''invalid_grant'' (Some ''The access token provided has expired.'')
        None), req)
   \<longleftrightarrow> (case expires t of None \<Rightarrow> True | Some e \<Rightarrow> e < now this)"
  by (simp add: validateAccessToken_def split: option.splits)

theorem expired_iff_witness:
  "validateAccessToken example_oauth (Some \<lparr>expires = Some 999, user_id = ''u3''\<rparr>)
     (request_of None (Some ''old'') None ''GET'') =
     (Next_err (OAuth2Error ''invalid_grant'' (Some ''The access token provided has expired.'')
        None), request_of None (Some ''old'') None ''GET'') \<and>
   validateAccessToken example_oauth (Some \<lparr>expires = None, user_id = ''u4''\<rparr>)
     (request_of None (Some ''never'') None ''GET'') =
     (Next_err (OAuth2Error ''invalid_grant'' (Some ''The access token provided has expired.'')
        None), request_of None (Some ''never'') None ''GET'')"
  using expired_iff [of example_oauth "\<lparr>expires = Some 999, user_id = ''u3''\<rparr>"
      "request_of None (Some ''old'') None ''GET''"]
    expired_iff [of example_oauth "\<lparr>expires = None, user_id = ''u4''\<rparr>"
      "request_of None (Some ''never'') None ''GET''"]
  by (simp add: example_oauth_def)

text \<open>
  C1 as stated fails: a record with \<^verbatim>\<open>expires\<close> equal to \<^verbatim>\<open>now\<close> is not rejected as
  expired, since the source compares with \<^verbatim>\<open>token.expires < this.now\<close>.
\<close>

theorem expires_equal_now_counterexample:
  "now example_oauth = 1000 \<and>
   validateAccessToken example_oauth (Some \<lparr>expires = Some 1000, user_id = ''u2''\<rparr>)
     (request_of None (Some ''edge'') None ''GET'') =
     (Next, (request_of None (Some ''edge'') None ''GET'')\<lparr>user := Some (User_obj ''u2'')\<rparr>)"
  by (simp add: example_oauth_def validateAccessToken_def)

text \<open>
  C2 (as amended). For every request whose only carrier is a non-empty Authorization
  header \<open>h\<close>: extraction fails with kind \<^verbatim>\<open>invalid_request\<close> and message "Malformed
  auth header" exactly when \<open>h\<close> contains nowhere the case-sensitive literal "Bearer"
  followed by one whitespace character and at least one non-whitespace character;
  otherwise it succeeds, and the token is the group of the leftmost such place: the
  longest run of non-whitespace characters after that whitespace character. Text before
  the literal, a separator other than the space and content after the token do not make
  the header malformed.
\<close>

theorem header_token_syntax:
  assumes "authorization req = Some h" and "h \<noteq> []"
    and "query_access_token req = None" and "body_access_token req = None"
  shows "((getBearerToken req :: 'e OAuth2Error + jsval) =
            Inl (OAuth2Error ''invalid_request'' (Some ''Malformed auth header'') None)
          \<longleftrightarrow> \<not> (\<exists>pre g post. bearer_at pre g post h)) \<and>
         ((getBearerToken req :: 'e OAuth2Error + jsval) = Inr tok
          \<longleftrightarrow> (\<exists>pre g post. tok = Some g \<and> bearer_at pre g post h \<and> first_at pre h))"
proof (cases "bearer_match h")
  case None
  then have g: "(getBearerToken req :: 'e OAuth2Error + jsval) =
      Inl (OAuth2Error ''invalid_request'' (Some ''Malformed auth header'') None)"
    using getBearerToken_header_only[OF assms] by simp
  have "\<not> (\<exists>pre g post. bearer_at pre g post h)" using None bearer_match_None_iff by blast
  then show ?thesis using g by auto
next
  case (Some g0)
  then have g: "(getBearerToken req :: 'e OAuth2Error + jsval) = Inr (Some g0)"
    using getBearerToken_header_only[OF assms] by simp
  have ex: "\<exists>pre g post. bearer_at pre g post h"
    using Some bearer_match_None_iff[of h] by simp
  have "(\<exists>pre g post. tok = Some g \<and> bearer_at pre g post h \<and> first_at pre h) \<longleftrightarrow> tok = Some g0"
  proof
    assume "\<exists>pre g post. tok = Some g \<and> bearer_at pre g post h \<and> first_at pre h"
    then obtain pre g post where t: "tok = Some g" "bearer_at pre g post h" "first_at pre h"
      by blast
    then have "bearer_match h = Some g" using bearer_match_Some_iff by blast
    then show "tok = Some g0" using Some t(1) by simp
  next
    assume "tok = Some g0"
    then show "\<exists>pre g post. tok = Some g \<and> bearer_at pre g post h \<and> first_at pre h"
      using Some bearer_match_Some_iff[of h g0] by blast
  qed
  then show ?thesis using g ex by auto
qed

theorem header_token_syntax_witness:
  "(getBearerToken (request_of (Some ''Bearer abc123'') None None ''GET'')
      :: string OAuth2Error + jsval) = Inr (Some ''abc123'') \<and>
   (\<exists>pre g post. Some ''abc123'' = Some g \<and> bearer_at pre g post ''Bearer abc123'' \<and>
      first_at pre ''Bearer abc123'') \<and>
   (getBearerToken (request_of (Some ''Basic xyz'') None None ''GET'')
      :: string OAuth2Error + jsval) =
     Inl (OAuth2Error ''invalid_request'' (Some ''Malformed auth header'') None) \<and>
   \<not> (\<exists>pre g post. bearer_at pre g post ''Basic xyz'')"
proof -
  let ?A = "request_of (Some ''Bearer abc123'') None None ''GET''"
  let ?E = "request_of (Some ''Basic xyz'') None None ''GET''"
  have a: "(getBearerToken ?A :: string OAuth2Error + jsval) = Inr (Some ''abc123'')"
    by (simp add: eval_defs)
  have e: "(getBearerToken ?E :: string OAuth2Error + jsval) =
     Inl (OAuth2Error ''invalid_request'' (Some ''Malformed auth header'') None)"
    by (simp add: eval_defs)
  have "authorization ?A = Some ''Bearer abc123''" "''Bearer abc123'' \<noteq> []"
    "query_access_token ?A = None" "body_access_token ?A = None"
    by (simp_all add: request_of_def)
  from header_token_syntax [OF this, where ?'e = string and tok = "Some ''abc123''"] a
  have 1: "\<exists>pre g post. Some ''abc123'' = Some g \<and> bearer_at pre g post ''Bearer abc123'' \<and>
      first_at pre ''Bearer abc123''" by blast
  have "authorization ?E = Some ''Basic xyz''" "''Basic xyz'' \<noteq> []"
    "query_access_token ?E = None" "body_access_token ?E = None"
    by (simp_all add: request_of_def)
  from header_token_syntax [OF this, where ?'e = string and tok = None] e
  have 2: "\<not> (\<exists>pre g post. bearer_at pre g post ''Basic xyz'')" by blast
  show ?thesis using a e 1 2 by blast
qed

text \<open>
  C2 as stated fails: a header with content after the token, and a header with text
  before the literal and a tab as the separator, are accepted, since the expression
  \<^verbatim>\<open>/Bearer\s(\S+)/\<close> has no anchors and \<^verbatim>\<open>\s\<close> is any whitespace character.
\<close>

theorem header_token_syntax_counterexample:
  "(getBearerToken (request_of (Some ''Bearer abc def'') None None ''GET'')
      :: string OAuth2Error + jsval) = Inr (Some ''abc'') \<and>
   (getBearerToken (request_of (Some (''xBearer'' @ [CHR 0x09] @ ''abc'')) None None ''GET'')
      :: string OAuth2Error + jsval) = Inr (Some ''abc'')"
  by (simp add: eval_defs)

text \<open>
  C3 (as amended). For every request, extraction counts a carrier (Authorization header,
  query parameter, body parameter) exactly when its value is defined, an empty value
  included. It fails with kind \<^verbatim>\<open>invalid_request\<close> and message "The access token was not
  found" exactly when the count is 0, and with kind \<^verbatim>\<open>invalid_request\<close> and message "Only
  one method may be used to authenticate at a time (Auth header, GET or POST)." exactly
  when the count exceeds 1, whatever the header's format and the method are: the count
  check runs before the header-format and method checks.
\<close>

theorem count_check:
  "((getBearerToken req :: 'e OAuth2Error + jsval) =
      Inl (OAuth2Error ''invalid_request'' (Some ''The access token was not found'') None)
    \<longleftrightarrow> carriers_defined req = 0) \<and>
   ((getBearerToken req :: 'e OAuth2Error + jsval) =
      Inl (OAuth2Error ''invalid_request''
        (Some ''Only one method may be used to authenticate at a time (Auth header, GET or POST).'')
        None)
    \<longleftrightarrow> 1 < carriers_defined req)"
  unfolding methodsUsed_carriers [symmetric]
  by (simp add: getBearerToken_def Let_def split: option.splits)

theorem count_check_witness:
  "carriers_defined (request_of None None None ''GET'') = 0 \<and>
   (getBearerToken (request_of None None None ''GET'') :: string OAuth2Error + jsval) =
      Inl (OAuth2Error ''invalid_request'' (Some ''The access token was not found'') None) \<and>
   1 < carriers_defined (request_of (Some ''Basic xyz'') None (Some ''tok'') ''GET'') \<and>
   (getBearerToken (request_of (Some ''Basic xyz'') None (Some ''tok'') ''GET'')
      :: string OAuth2Error + jsval) =
      Inl (OAuth2Error ''invalid_request''
        (Some ''Only one method may be used to authenticate at a time (Auth header, GET or POST).'')
        None)"
proof -
  have 0: "carriers_defined (request_of None None None ''GET'') = 0"
    by (simp add: carriers_defined_def request_of_def)
  have 2: "1 < carriers_defined (request_of (Some ''Basic xyz'') None (Some ''tok'') ''GET'')"
    by (simp add: carriers_defined_def request_of_def)
  show ?thesis
    using 0 2 count_check [of "request_of None None None ''GET''", where ?'e = string]
      count_check [of "request_of (Some ''Basic xyz'') None (Some ''tok'') ''GET''",
        where ?'e = string]
    by blast
qed

text \<open>
  C3 as stated fails: a request whose only defined carrier is an empty Authorization
  header has no carrier that is defined and non-empty, yet extraction does not fail with
  "The access token was not found": the empty header is counted, the count is 1, and the
  callback gets no error.
\<close>

theorem empty_carrier_counterexample:
  "truthy (authorization (request_of (Some []) None None ''GET'')) = False \<and>
   (getBearerToken (request_of (Some []) None None ''GET'') :: string OAuth2Error + jsval) =
     Inr None"
  by (simp add: eval_defs)

text \<open>
  C4. For every request whose extracted token has a store record with \<^verbatim>\<open>expires\<close>
  strictly greater than the current time, the filter signals continuation with no error,
  and the request it leaves has its \<^verbatim>\<open>user\<close> field set to the object whose \<^verbatim>\<open>id\<close> is
  the record's \<^verbatim>\<open>user_id\<close>; the lookup was called once, with the extracted token.
\<close>

theorem handle_admits:
  assumes "(getBearerToken req :: 'e OAuth2Error + jsval) = Inr b"
    and "getAccessToken (this :: ('e, 'u) oauth) b = Inr (Some t)"
    and "expires t = Some e"
    and "now this < e"
  shows "handle this req = (Next, req\<lparr>user := Some (User_obj (user_id t))\<rparr>, [b])"
  using assms by (simp add: handle_Inr validateAccessToken_def)

theorem handle_admits_witness:
  "handle example_oauth (request_of (Some ''Bearer abc123'') None None ''GET'') =
     (Next, (request_of (Some ''Bearer abc123'') None None ''GET'')\<lparr>user := Some (User_obj ''u1'')\<rparr>,
      [Some ''abc123''])"
proof -
  have 1: "(getBearerToken (request_of (Some ''Bearer abc123'') None None ''GET'')
              :: string OAuth2Error + jsval) = Inr (Some ''abc123'')"
    by (simp add: eval_defs)
  have 2: "getAccessToken example_oauth (Some ''abc123'') =
             Inr (Some \<lparr>expires = Some 4600, user_id = ''u1''\<rparr>)"
    by (simp add: example_oauth_def)
  have 3: "expires \<lparr>expires = Some 4600, user_id = ''u1''\<rparr> = Some 4600" by simp
  have 4: "now example_oauth < 4600" by (simp add: example_oauth_def)
  show ?thesis using handle_admits [OF 1 2 3 4] by simp
qed

text \<open>
  C5. For every candidate token for which the lookup returns no record, validation fails
  with the error of kind \<^verbatim>\<open>invalid_grant\<close> and message "The access token provided is
  invalid.", and so does the filter, leaving the request as it was.
\<close>

theorem handle_unknown_token:
  assumes "(getBearerToken req :: 'e OAuth2Error + jsval) = Inr b"
    and "getAccessToken (this :: ('e, 'u) oauth) b = Inr None"
  shows "validateAccessToken this None req =
           (Next_err (OAuth2Error ''invalid_grant''
              (Some ''The access token provided is invalid.'') None), req) \<and>
         handle this req =
           (Next_err (OAuth2Error ''invalid_grant''
              (Some ''The access token provided is invalid.'') None), req, [b])"
  using assms by (simp add: handle_Inr validateAccessToken_def)

theorem handle_unknown_token_witness:
  "handle example_oauth (request_of None (Some ''xyz'') None ''GET'') =
     (Next_err (OAuth2Error ''invalid_grant'' (Some ''The access token provided is invalid.'')
        None), request_of None (Some ''xyz'') None ''GET'', [Some ''xyz''])"
proof -
  have 1: "(getBearerToken (request_of None (Some ''xyz'') None ''GET'')
              :: string OAuth2Error + jsval) = Inr (Some ''xyz'')"
    by (simp add: eval_defs)
  have 2: "getAccessToken example_oauth (Some ''xyz'') = Inr None"
    by (simp add: example_oauth_def)
  show ?thesis using handle_unknown_token [OF 1 2] by simp
qed

text \<open>
  C6. For every request whose token is extracted and on which the lookup returns an
  error, the filter rejects with an error of kind \<^verbatim>\<open>server_error\<close>, built with
  \<^verbatim>\<open>false\<close> for its description (no description to show) and wrapping the error of the
  lookup as its cause.
\<close>

theorem handle_lookup_error:
  assumes "(getBearerToken req :: 'e OAuth2Error + jsval) = Inr b"
    and "getAccessToken (this :: ('e, 'u) oauth) b = Inl cause_err"
  shows "handle this req =
           (Next_err (OAuth2Error ''server_error'' None (Some cause_err)), req, [b])"
  using assms by (simp add: handle_Inr)

theorem handle_lookup_error_witness:
  "handle example_oauth (request_of None (Some ''down'') None ''GET'') =
     (Next_err (OAuth2Error ''server_error'' None (Some ''store unavailable'')),
      request_of None (Some ''down'') None ''GET'', [Some ''down''])"
proof -
  have 1: "(getBearerToken (request_of None (Some ''down'') None ''GET'')
              :: string OAuth2Error + jsval) = Inr (Some ''down'')"
    by (simp add: eval_defs)
  have 2: "getAccessToken example_oauth (Some ''down'') = Inl ''store unavailable''"
    by (simp add: example_oauth_def)
  show ?thesis using handle_lookup_error [OF 1 2] by simp
qed

text \<open>
  C7 (as amended). For every request whose body parameter \<^verbatim>\<open>access_token\<close> is a
  non-empty string and whose method is not POST, extraction fails with kind
  \<^verbatim>\<open>invalid_request\<close>: with message "When putting the token in the body, the method
  must be POST." when the body parameter is the only carrier whose value is defined, and
  with message "Only one method may be used to authenticate at a time (Auth header, GET
  or POST)." when the header or the query parameter is defined too, since the count
  check comes first. The filter rejects with that error for every store and every
  current time, leaves the request unchanged and does not call the lookup.
\<close>

theorem body_token_requires_POST:
  assumes "body_access_token req = Some t" and "t \<noteq> []"
    and "req_method req \<noteq> ''POST''"
  shows "(getBearerToken req :: 'e OAuth2Error + jsval) =
           Inl (OAuth2Error ''invalid_request''
             (Some (if authorization req = None \<and> query_access_token req = None
                    then ''When putting the token in the body, the method must be POST.''
                    else ''Only one method may be used to authenticate at a time (Auth header, GET or POST).''))
             None) \<and>
         handle (this :: ('e, 'u) oauth) req =
           (Next_err (OAuth2Error ''invalid_request''
             (Some (if authorization req = None \<and> query_access_token req = None
                    then ''When putting the token in the body, the method must be POST.''
                    else ''Only one method may be used to authenticate at a time (Auth header, GET or POST).''))
             None),
            req, [])"
proof -
  have "(getBearerToken req :: 'e OAuth2Error + jsval) =
           Inl (OAuth2Error ''invalid_request''
             (Some (if authorization req = None \<and> query_access_token req = None
                    then ''When putting the token in the body, the method must be POST.''
                    else ''Only one method may be used to authenticate at a time (Auth header, GET or POST).''))
             None)"
  proof (cases "authorization req = None \<and> query_access_token req = None")
    case True
    then show ?thesis using assms
      by (simp add: getBearerToken_def methodsUsed_def defined_num_def truthy_def)
  next
    case False
    then have "1 < methodsUsed req" using assms(1)
      by (auto simp: methodsUsed_def defined_num_def split: option.splits)
    then show ?thesis using False by (simp add: getBearerToken_def Let_def)
  qed
  then show ?thesis by (simp only: handle_Inl simp_thms)
qed

theorem body_token_requires_POST_witness:
  "(getBearerToken (request_of None None (Some ''abc123'') ''GET'') :: string OAuth2Error + jsval) =
     Inl (OAuth2Error ''invalid_request''
       (Some ''When putting the token in the body, the method must be POST.'') None) \<and>
   handle example_oauth (request_of None None (Some ''abc123'') ''GET'') =
     (Next_err (OAuth2Error ''invalid_request''
        (Some ''When putting the token in the body, the method must be POST.'') None),
      request_of None None (Some ''abc123'') ''GET'', []) \<and>
   handle example_oauth (request_of None (Some ''abc123'') (Some ''abc123'') ''GET'') =
     (Next_err (OAuth2Error ''invalid_request''
        (Some ''Only one method may be used to authenticate at a time (Auth header, GET or POST).'')
        None),
      request_of None (Some ''abc123'') (Some ''abc123'') ''GET'', [])"
proof -
  let ?D = "request_of None None (Some ''abc123'') ''GET''"
  let ?Q = "request_of None (Some ''abc123'') (Some ''abc123'') ''GET''"
  have d: "body_access_token ?D = Some ''abc123''" "''abc123'' \<noteq> []"
    "req_method ?D \<noteq> ''POST''"
    by (simp_all add: request_of_def)
  have q: "body_access_token ?Q = Some ''abc123''" "''abc123'' \<noteq> []"
    "req_method ?Q \<noteq> ''POST''"
    by (simp_all add: request_of_def)
  have dn: "authorization ?D = None \<and> query_access_token ?D = None"
    by (simp add: request_of_def)
  have qn: "\<not> (authorization ?Q = None \<and> query_access_token ?Q = None)"
    by (simp add: request_of_def)
  show ?thesis
    using body_token_requires_POST [OF d, of example_oauth]
      body_token_requires_POST [OF q, of example_oauth] dn qn
    by (simp only: if_True if_False simp_thms)
qed

text \<open>
  C7 as stated fails, whichever way a carrier is taken to carry the token. A GET request
  whose only defined carrier is the body parameter, with the empty string as its value,
  gets no error from extraction: the check of the method is guarded by
  \<^verbatim>\<open>if (postToken)\<close>. A GET request with the token in the body parameter and an empty
  Authorization header gets the error of the count check, not the one of the method.
\<close>

theorem body_token_requires_POST_counterexample:
  "(getBearerToken (request_of None None (Some []) ''GET'') :: string OAuth2Error + jsval) =
     Inr None \<and>
   (getBearerToken (request_of (Some []) None (Some ''abc123'') ''GET'')
      :: string OAuth2Error + jsval) =
     Inl (OAuth2Error ''invalid_request''
       (Some ''Only one method may be used to authenticate at a time (Auth header, GET or POST).'')
       None)"
  by (simp add: eval_defs)

text \<open>
  C8. For every request, the request the filter leaves differs from the one it was given
  in the \<^verbatim>\<open>user\<close> field at most; on every rejection the request is left unchanged, the
  \<^verbatim>\<open>user\<close> field included; and the \<^verbatim>\<open>user\<close> field is written only when the filter
  signals continuation, that is after the token was extracted, the lookup returned a
  record and the record was found not expired.
\<close>

theorem handle_frame:
  assumes "handle (this :: ('e, 'u) oauth) req = (sig, req', calls)"
  shows "req' = req\<lparr>user := user req'\<rparr> \<and>
         (sig \<noteq> Next \<longrightarrow> req' = req) \<and>
         (sig = Next \<longrightarrow>
            (\<exists>b t e. (getBearerToken req :: 'e OAuth2Error + jsval) = Inr b \<and>
               getAccessToken this b = Inr (Some t) \<and> expires t = Some e \<and> \<not> e < now this \<and>
               req' = req\<lparr>user := Some (User_obj (user_id t))\<rparr>))"
proof (cases "getBearerToken req :: 'e OAuth2Error + jsval")
  case (Inl err)
  then show ?thesis using assms by (auto simp: handle_Inl)
next
  case (Inr b)
  show ?thesis
  proof (cases "getAccessToken this b")
    case (Inl err)
    then show ?thesis using assms Inr by (auto simp: handle_Inr)
  next
    case tok: (Inr tok)
    show ?thesis
    proof (cases tok)
      case None
      then show ?thesis using assms Inr tok by (auto simp: handle_Inr validateAccessToken_def)
    next
      case (Some t)
      show ?thesis
      proof (cases "expires t")
        case None
        then show ?thesis using assms Inr tok Some
          by (auto simp: handle_Inr validateAccessToken_def)
      next
        case e: (Some e)
        show ?thesis
        proof (cases "e < now this")
          case True
          then show ?thesis using assms Inr tok Some e
            by (auto simp: handle_Inr validateAccessToken_def)
        next
          case False
          then show ?thesis using assms Inr tok Some e
            by (auto simp: handle_Inr validateAccessToken_def)
        qed
      qed
    qed
  qed
qed

theorem handle_frame_witness:
  "handle example_oauth (request_of (Some ''Bearer old'') None None ''GET'') =
     (Next_err (OAuth2Error ''invalid_grant'' (Some ''The access token provided has expired.'')
        None), request_of (Some ''Bearer old'') None None ''GET'', [Some ''old'']) \<and>
   request_of (Some ''Bearer old'') None None ''GET'' =
     (request_of (Some ''Bearer old'') None None ''GET'')
       \<lparr>user := user (request_of (Some ''Bearer old'') None None ''GET'')\<rparr>"
proof -
  let ?R = "request_of (Some ''Bearer old'') None None ''GET''"
  have h: "handle example_oauth ?R =
     (Next_err (OAuth2Error ''invalid_grant'' (Some ''The access token provided has expired.'')
        None), ?R, [Some ''old''])"
    by (simp add: eval_defs)
  from handle_frame [OF h] h show ?thesis by blast
qed

text \<open>
  C9. For a fixed store and current time, running the filter a second time, on the
  request as the first run left it, gives the same signal (the same error kind, message
  and cause when it rejects), the same request with the same attached identity, and the
  same lookup call; and the signal does not depend on what the \<^verbatim>\<open>user\<close> field held
  before the run.
\<close>

theorem handle_twice:
  "(case handle this req of (sig, req', calls) \<Rightarrow> handle this req' = (sig, req', calls)) \<and>
   fst (handle this (req\<lparr>user := u\<rparr>)) = fst (handle this req)"
proof
  show "case handle this req of (sig, req', calls) \<Rightarrow> handle this req' = (sig, req', calls)"
    using handle_result [of this req]
  proof (elim disjE exE)
    fix err calls assume "handle this req = (Next_err err, req, calls)"
    then show ?thesis by simp
  next
    fix v calls assume h: "handle this req = (Next, req\<lparr>user := v\<rparr>, calls)"
    then have "handle this (req\<lparr>user := v\<rparr>) = (Next, req\<lparr>user := v\<rparr>, calls)"
      by (simp add: handle_user)
    then show ?thesis using h by simp
  qed
next
  show "fst (handle this (req\<lparr>user := u\<rparr>)) = fst (handle this req)"
    by (simp add: handle_user split: prod.splits signal.splits)
qed

theorem handle_twice_witness:
  "handle example_oauth (request_of (Some ''Bearer abc123'') None None ''GET'') =
     (Next, (request_of (Some ''Bearer abc123'') None None ''GET'')\<lparr>user := Some (User_obj ''u1'')\<rparr>,
      [Some ''abc123'']) \<and>
   handle example_oauth
     ((request_of (Some ''Bearer abc123'') None None ''GET'')\<lparr>user := Some (User_obj ''u1'')\<rparr>) =
     (Next, (request_of (Some ''Bearer abc123'') None None ''GET'')\<lparr>user := Some (User_obj ''u1'')\<rparr>,
      [Some ''abc123''])"
proof -
  let ?R = "request_of (Some ''Bearer abc123'') None None ''GET''"
  have h: "handle example_oauth ?R =
     (Next, ?R\<lparr>user := Some (User_obj ''u1'')\<rparr>, [Some ''abc123''])"
    by (simp add: eval_defs)
  from handle_twice [of example_oauth ?R] h show ?thesis by simp
qed

text \<open>
  C10. For every request on which extraction fails, the filter rejects with the
  extraction error, leaves the request unchanged and never calls the lookup; so for any
  two stores (and current times) the result is the same.
\<close>

theorem extraction_failure_skips_lookup:
  assumes "(getBearerToken req :: 'e OAuth2Error + jsval) = Inl err"
  shows "handle (this :: ('e, 'u) oauth) req = (Next_err err, req, []) \<and>
         handle (this' :: ('e, 'u) oauth) req = handle this req"
  using assms by (simp add: handle_Inl)

theorem extraction_failure_skips_lookup_witness:
  "handle example_oauth (request_of (Some ''Bearer abc123'') (Some ''abc123'') None ''GET'') =
     (Next_err (OAuth2Error ''invalid_request''
        (Some ''Only one method may be used to authenticate at a time (Auth header, GET or POST).'')
        None),
      request_of (Some ''Bearer abc123'') (Some ''abc123'') None ''GET'', []) \<and>
   handle (example_oauth\<lparr>getAccessToken := \<lambda>b. Inl ''store unavailable''\<rparr>)
       (request_of (Some ''Bearer abc123'') (Some ''abc123'') None ''GET'') =
     handle example_oauth (request_of (Some ''Bearer abc123'') (Some ''abc123'') None ''GET'')"
proof -
  let ?C = "request_of (Some ''Bearer abc123'') (Some ''abc123'') None ''GET''"
  have "(getBearerToken ?C :: string OAuth2Error + jsval) =
     Inl (OAuth2Error ''invalid_request''
        (Some ''Only one method may be used to authenticate at a time (Auth header, GET or POST).'')
        None)"
    by (simp add: eval_defs)
  from extraction_failure_skips_lookup [OF this, of example_oauth
      "example_oauth\<lparr>getAccessToken := \<lambda>b. Inl ''store unavailable''\<rparr>"]
  show ?thesis .
qed

end
